theory Spec2Isabelle
  imports Complex_Main
begin

section \<open>The activated-sludge reactor of \<^verbatim>\<open>unit_procs/bio.py\<close>\<close>

text \<open>
  The class \<^verbatim>\<open>asm_reactor\<close> is embedded as a record that is passed through every
  method and returned updated. Concentrations, rates, volumes and step sizes are Python
  numbers; they are modelled as exact reals, so a statement below is about the
  arithmetic the code writes down, evaluated without rounding, unless it is about the
  rounded Euler integrator \<open>euler_fl\<close>, which keeps the rounding of every operation as
  a parameter. Exceptions are values:
  a method that can raise returns \<open>py_error + state\<close>; when it raises, only the error
  is returned, not the fields assigned up to that point.

  Lists are values. The only list the file changes in place is \<^verbatim>\<open>self._sludge._comps\<close>
  (in the loop of \<^verbatim>\<open>_euler\<close>), and every assignment of that list to another field goes
  through a copy \<^verbatim>\<open>[:]\<close>, so no other field observes the change.

  Three collaborators are not part of the file and are taken as parameters wherever a
  method calls them: the rate function \<^verbatim>\<open>ASM_1._dCdt\<close>, the condition updater
  \<^verbatim>\<open>ASM_1.update\<close>, and the two \<^verbatim>\<open>pipe\<close> methods \<^verbatim>\<open>_branch_flow_helper\<close> and
  \<^verbatim>\<open>_discharge_main_outlet\<close>. The rate function is a pure function of the kinetics
  object and its four arguments.
\<close>

subsection \<open>Python primitives\<close>

datatype py_error = ValueError | IndexError

text \<open>\<^verbatim>\<open>xs[i]\<close>: a negative index counts from the end, anything out of range raises.\<close>

definition py_getitem :: "'a list \<Rightarrow> int \<Rightarrow> py_error + 'a" where
  "py_getitem xs i =
     (let n = int (length xs) in
      if 0 \<le> i \<and> i < n then Inr (xs ! nat i)
      else if - n \<le> i \<and> i < 0 then Inr (xs ! nat (n + i))
      else Inl IndexError)"

text \<open>\<^verbatim>\<open>range(a, b)\<close> over Python integers.\<close>

definition py_range :: "int \<Rightarrow> int \<Rightarrow> int list" where
  "py_range a b = [a..b - 1]"

text \<open>\<^verbatim>\<open>min(xs)\<close> on a list: ValueError on the empty list.\<close>

fun py_min :: "real list \<Rightarrow> py_error + real" where
  "py_min [] = Inl ValueError"
| "py_min (x # xs) = Inr (fold min xs x)"

text \<open>A list comprehension \<^verbatim>\<open>[body(i) for i in idx]\<close> whose body may raise.\<close>

fun list_comp :: "(nat \<Rightarrow> py_error + 'a) \<Rightarrow> nat list \<Rightarrow> py_error + 'a list" where
  "list_comp body [] = Inr []"
| "list_comp body (i # idx) =
     (case body i of
        Inl e \<Rightarrow> Inl e
      | Inr v \<Rightarrow> (case list_comp body idx of Inl e \<Rightarrow> Inl e | Inr vs \<Rightarrow> Inr (v # vs)))"

subsection \<open>The reactor state\<close>

text \<open>
  The fields of the object that the methods of the file read or write. \<open>sludge_comps\<close>
  is \<^verbatim>\<open>self._sludge._comps\<close>; \<open>sludge_kin\<close> is the rest of the \<^verbatim>\<open>ASM_1\<close> object
  (temperature, dissolved oxygen, parameters), \<open>pipe_state\<close> the rest of the \<^verbatim>\<open>pipe\<close>
  base object. Two fields record effects: \<open>rate_calls\<close> lists, in order, the argument
  tuples of the calls made to \<^verbatim>\<open>_dCdt\<close>, and \<open>console\<close> the lines printed.
\<close>

record ('k, 'p) asm_reactor =
  name :: string
  active_vol :: real
  swd :: real
  area :: real
  total_inflow :: real
  in_comps :: "real list"
  mo_comps :: "real list"
  so_comps :: "real list"
  prev_mo_comps :: "real list"
  prev_so_comps :: "real list"
  sludge_comps :: "real list"
  sludge_kin :: 'k
  pipe_state :: 'p
  rate_calls :: "(real \<times> real \<times> real list \<times> real list) list"
  console :: "string list"

type_synonym 'k rate_fun = "'k \<Rightarrow> real \<Rightarrow> real \<Rightarrow> real list \<Rightarrow> real list \<Rightarrow> real list"

text \<open>
  \<^verbatim>\<open>self._sludge._dCdt(self._active_vol, self._total_inflow, self._in_comps, w)\<close>:
  the value returned, and the state with the call recorded.
\<close>

definition call_dCdt ::
  "'k rate_fun \<Rightarrow> real list \<Rightarrow> ('k, 'p) asm_reactor \<Rightarrow> real list \<times> ('k, 'p) asm_reactor" where
  "call_dCdt dCdt w s =
     (dCdt (sludge_kin s) (active_vol s) (total_inflow s) (in_comps s) w,
      s\<lparr>rate_calls := rate_calls s @ [(active_vol s, total_inflow s, in_comps s, w)]\<rparr>)"

subsection \<open>Mutators\<close>

definition assign_initial_guess ::
  "real list \<Rightarrow> ('k, 'p) asm_reactor \<Rightarrow> ('k, 'p) asm_reactor" where
  "assign_initial_guess initial_guess s =
     s\<lparr>sludge_comps := initial_guess, mo_comps := initial_guess\<rparr>"

definition set_active_vol :: "real \<Rightarrow> ('k, 'p) asm_reactor \<Rightarrow> ('k, 'p) asm_reactor" where
  "set_active_vol vol s =
     (if vol > 0 then s\<lparr>active_vol := vol\<rparr>
      else s\<lparr>console := console s @
             [''ERROR: '' @ name s @ '' requires an active vol > 0 M3.'']\<rparr>)"

definition get_active_vol :: "('k, 'p) asm_reactor \<Rightarrow> real" where
  "get_active_vol s = active_vol s"

definition set_model_condition ::
  "(real \<Rightarrow> real \<Rightarrow> 'k \<Rightarrow> 'k) \<Rightarrow> real \<Rightarrow> real \<Rightarrow> ('k, 'p) asm_reactor \<Rightarrow> ('k, 'p) asm_reactor" where
  "set_model_condition update Temperature DO s =
     (if Temperature \<ge> 4 \<and> DO \<ge> 0 then s\<lparr>sludge_kin := update Temperature DO (sludge_kin s)\<rparr>
      else s\<lparr>console := console s @
             [''ERROR: '' @ name s @ '' given crazy temperature or DO.'']\<rparr>)"

subsection \<open>Step-size control\<close>

text \<open>
  One of the two loops that collect the candidate bounds: for each index of \<open>idx\<close> whose
  rate is not zero, \<^verbatim>\<open>self._sludge._comps[i] / abs(_del_C_del_t[i])\<close> is appended.
\<close>

fun uppers :: "real list \<Rightarrow> real list \<Rightarrow> int list \<Rightarrow> py_error + real list" where
  "uppers d c [] = Inr []"
| "uppers d c (i # idx) =
     (case py_getitem d i of
        Inl e \<Rightarrow> Inl e
      | Inr r \<Rightarrow>
          if r \<noteq> 0 then
            (case py_getitem c i of
               Inl e \<Rightarrow> Inl e
             | Inr x \<Rightarrow>
                 (case uppers d c idx of
                    Inl e \<Rightarrow> Inl e
                  | Inr us \<Rightarrow> Inr (x / \<bar>r\<bar> # us)))
          else uppers d c idx)"

text \<open>
  Both loops and both minima, in the order of the source (the text is the same in
  \<^verbatim>\<open>_euler\<close> and \<^verbatim>\<open>_runge_kutta_4\<close>): the result is
  \<^verbatim>\<open>(_max_step_sol, _max_step_part)\<close>.
\<close>

definition max_steps :: "real list \<Rightarrow> real list \<Rightarrow> int \<Rightarrow> py_error + real \<times> real" where
  "max_steps d c first_index_part =
     (case uppers d c (py_range 0 first_index_part) of
        Inl e \<Rightarrow> Inl e
      | Inr uppers_sol \<Rightarrow>
     (case uppers d c (py_range first_index_part (int (length d))) of
        Inl e \<Rightarrow> Inl e
      | Inr uppers_part \<Rightarrow>
     (case py_min uppers_sol of
        Inl e \<Rightarrow> Inl e
      | Inr max_step_sol \<Rightarrow>
     (case py_min uppers_part of
        Inl e \<Rightarrow> Inl e
      | Inr max_step_part \<Rightarrow> Inr (max_step_sol, max_step_part)))))"

text \<open>\<^verbatim>\<open>(_step_sol, _step_part)\<close> as \<^verbatim>\<open>_euler\<close> computes them (lines 289-290).\<close>

definition euler_steps ::
  "real \<Rightarrow> real \<Rightarrow> real list \<Rightarrow> real list \<Rightarrow> int \<Rightarrow> py_error + real \<times> real" where
  "euler_steps f_s f_p d c first_index_part =
     (case max_steps d c first_index_part of
        Inl e \<Rightarrow> Inl e
      | Inr (max_step_sol, max_step_part) \<Rightarrow> Inr (f_s * max_step_sol, f_s * max_step_part))"

text \<open>\<^verbatim>\<open>(_step_sol, _step_part)\<close> as \<^verbatim>\<open>_runge_kutta_4\<close> computes them (lines 192-193).\<close>

definition rk4_steps ::
  "real \<Rightarrow> real \<Rightarrow> real list \<Rightarrow> real list \<Rightarrow> int \<Rightarrow> py_error + real \<times> real" where
  "rk4_steps f_s f_p d c first_index_part =
     (case max_steps d c first_index_part of
        Inl e \<Rightarrow> Inl e
      | Inr (max_step_sol, max_step_part) \<Rightarrow> Inr (f_s * max_step_sol, f_p * max_step_part))"

subsection \<open>The Euler integrator\<close>

text \<open>
  The update loop \<^verbatim>\<open>for i in range(len(self._mo_comps)):
  self._sludge._comps[i] += _del_C_del_t[i] * _step_sol\<close>, in place on the list \<open>c\<close>.
\<close>

fun euler_update :: "real list \<Rightarrow> real list \<Rightarrow> real \<Rightarrow> nat list \<Rightarrow> py_error + real list" where
  "euler_update c d step_sol [] = Inr c"
| "euler_update c d step_sol (i # idx) =
     (if i < length c \<and> i < length d
      then euler_update (c[i := c ! i + d ! i * step_sol]) d step_sol idx
      else Inl IndexError)"

definition euler ::
  "'k rate_fun \<Rightarrow> int \<Rightarrow> real \<Rightarrow> real \<Rightarrow> ('k, 'p) asm_reactor \<Rightarrow> py_error + ('k, 'p) asm_reactor" where
  "euler dCdt first_index_part f_s f_p s =
     (case call_dCdt dCdt (mo_comps s) s of (del_C_del_t, s1) \<Rightarrow>
     (case euler_steps f_s f_p del_C_del_t (sludge_comps s1) first_index_part of
        Inl e \<Rightarrow> Inl e
      | Inr (step_sol, step_part) \<Rightarrow>
     (case euler_update (sludge_comps s1) del_C_del_t step_sol [0..<length (mo_comps s1)] of
        Inl e \<Rightarrow> Inl e
      | Inr c \<Rightarrow> Inr (s1\<lparr>sludge_comps := c, mo_comps := c, so_comps := c\<rparr>))))"

subsection \<open>The Euler integrator with rounded arithmetic\<close>

text \<open>
  The same code with the rounding of floating-point arithmetic kept: \<open>fl\<close> is applied
  to the result of every division, multiplication and addition of \<^verbatim>\<open>_euler\<close>;
  comparisons, \<^verbatim>\<open>abs\<close> and \<^verbatim>\<open>min\<close> are exact. With the identity for \<open>fl\<close> these are
  the definitions above.
\<close>

fun uppers_fl ::
  "(real \<Rightarrow> real) \<Rightarrow> real list \<Rightarrow> real list \<Rightarrow> int list \<Rightarrow> py_error + real list" where
  "uppers_fl fl d c [] = Inr []"
| "uppers_fl fl d c (i # idx) =
     (case py_getitem d i of
        Inl e \<Rightarrow> Inl e
      | Inr r \<Rightarrow>
          if r \<noteq> 0 then
            (case py_getitem c i of
               Inl e \<Rightarrow> Inl e
             | Inr x \<Rightarrow>
                 (case uppers_fl fl d c idx of
                    Inl e \<Rightarrow> Inl e
                  | Inr us \<Rightarrow> Inr (fl (x / \<bar>r\<bar>) # us)))
          else uppers_fl fl d c idx)"

definition max_steps_fl ::
  "(real \<Rightarrow> real) \<Rightarrow> real list \<Rightarrow> real list \<Rightarrow> int \<Rightarrow> py_error + real \<times> real" where
  "max_steps_fl fl d c first_index_part =
     (case uppers_fl fl d c (py_range 0 first_index_part) of
        Inl e \<Rightarrow> Inl e
      | Inr uppers_sol \<Rightarrow>
     (case uppers_fl fl d c (py_range first_index_part (int (length d))) of
        Inl e \<Rightarrow> Inl e
      | Inr uppers_part \<Rightarrow>
     (case py_min uppers_sol of
        Inl e \<Rightarrow> Inl e
      | Inr max_step_sol \<Rightarrow>
     (case py_min uppers_part of
        Inl e \<Rightarrow> Inl e
      | Inr max_step_part \<Rightarrow> Inr (max_step_sol, max_step_part)))))"

definition euler_steps_fl ::
  "(real \<Rightarrow> real) \<Rightarrow> real \<Rightarrow> real \<Rightarrow> real list \<Rightarrow> real list \<Rightarrow> int \<Rightarrow> py_error + real \<times> real" where
  "euler_steps_fl fl f_s f_p d c first_index_part =
     (case max_steps_fl fl d c first_index_part of
        Inl e \<Rightarrow> Inl e
      | Inr (max_step_sol, max_step_part) \<Rightarrow>
          Inr (fl (f_s * max_step_sol), fl (f_s * max_step_part)))"

fun euler_update_fl ::
  "(real \<Rightarrow> real) \<Rightarrow> real list \<Rightarrow> real list \<Rightarrow> real \<Rightarrow> nat list \<Rightarrow> py_error + real list" where
  "euler_update_fl fl c d step_sol [] = Inr c"
| "euler_update_fl fl c d step_sol (i # idx) =
     (if i < length c \<and> i < length d
      then euler_update_fl fl (c[i := fl (c ! i + fl (d ! i * step_sol))]) d step_sol idx
      else Inl IndexError)"

definition euler_fl ::
  "(real \<Rightarrow> real) \<Rightarrow> 'k rate_fun \<Rightarrow> int \<Rightarrow> real \<Rightarrow> real \<Rightarrow> ('k, 'p) asm_reactor
     \<Rightarrow> py_error + ('k, 'p) asm_reactor" where
  "euler_fl fl dCdt first_index_part f_s f_p s =
     (case call_dCdt dCdt (mo_comps s) s of (del_C_del_t, s1) \<Rightarrow>
     (case euler_steps_fl fl f_s f_p del_C_del_t (sludge_comps s1) first_index_part of
        Inl e \<Rightarrow> Inl e
      | Inr (step_sol, step_part) \<Rightarrow>
     (case euler_update_fl fl (sludge_comps s1) del_C_del_t step_sol [0..<length (mo_comps s1)] of
        Inl e \<Rightarrow> Inl e
      | Inr c \<Rightarrow> Inr (s1\<lparr>sludge_comps := c, mo_comps := c, so_comps := c\<rparr>))))"

subsection \<open>The Runge-Kutta integrator\<close>

text \<open>\<^verbatim>\<open>[self._mo_comps[i] + h * k[i] for i in range(len(k))]\<close>.\<close>

definition rk_stage :: "real list \<Rightarrow> real \<Rightarrow> real list \<Rightarrow> py_error + real list" where
  "rk_stage mo h k =
     list_comp (\<lambda>i. if i < length mo then Inr (mo ! i + h * k ! i) else Inl IndexError)
       [0..<length k]"

text \<open>
  \<^verbatim>\<open>[c[i] + (k1[i] + 2 * k2[i] + 2 * k3[i] + k4[i]) / 6 * _step_sol
  for i in range(len(c))]\<close>.
\<close>

definition rk_combine ::
  "real list \<Rightarrow> real list \<Rightarrow> real list \<Rightarrow> real list \<Rightarrow> real list \<Rightarrow> real \<Rightarrow> py_error + real list" where
  "rk_combine c k1 k2 k3 k4 step_sol =
     list_comp
       (\<lambda>i. if i < length k1 \<and> i < length k2 \<and> i < length k3 \<and> i < length k4
            then Inr (c ! i + (k1 ! i + 2 * k2 ! i + 2 * k3 ! i + k4 ! i) / 6 * step_sol)
            else Inl IndexError)
       [0..<length c]"

definition runge_kutta_4 ::
  "'k rate_fun \<Rightarrow> int \<Rightarrow> real \<Rightarrow> real \<Rightarrow> ('k, 'p) asm_reactor \<Rightarrow> py_error + ('k, 'p) asm_reactor" where
  "runge_kutta_4 dCdt first_index_part f_s f_p s =
     (case call_dCdt dCdt (mo_comps s) s of (k1, s1) \<Rightarrow>
     (case rk4_steps f_s f_p k1 (sludge_comps s1) first_index_part of
        Inl e \<Rightarrow> Inl e
      | Inr (step_sol, step_part) \<Rightarrow>
     (case rk_stage (mo_comps s1) (step_sol / 2) k1 of
        Inl e \<Rightarrow> Inl e
      | Inr w2 \<Rightarrow>
     (case call_dCdt dCdt w2 s1 of (k2, s2) \<Rightarrow>
     (case rk_stage (mo_comps s2) (step_sol / 2) k2 of
        Inl e \<Rightarrow> Inl e
      | Inr w3 \<Rightarrow>
     (case call_dCdt dCdt w3 s2 of (k3, s3) \<Rightarrow>
     (case rk_stage (mo_comps s3) step_sol k3 of
        Inl e \<Rightarrow> Inl e
      | Inr w4 \<Rightarrow>
     (case call_dCdt dCdt w4 s3 of (k4, s4) \<Rightarrow>
     (case rk_combine (sludge_comps s4) k1 k2 k3 k4 step_sol of
        Inl e \<Rightarrow> Inl e
      | Inr c \<Rightarrow> Inr (s4\<lparr>sludge_comps := c, mo_comps := c, so_comps := c\<rparr>))))))))))"

subsection \<open>Dispatch and the discharge cycle\<close>

definition integrate ::
  "'k rate_fun \<Rightarrow> int \<Rightarrow> string \<Rightarrow> real \<Rightarrow> real \<Rightarrow> ('k, 'p) asm_reactor
     \<Rightarrow> py_error + ('k, 'p) asm_reactor" where
  "integrate dCdt first_index_particulate method_name f_s f_p s =
     (if method_name = ''Euler'' then euler dCdt first_index_particulate f_s f_p s
      else runge_kutta_4 dCdt first_index_particulate f_s f_p s)"

definition discharge ::
  "(('k, 'p) asm_reactor \<Rightarrow> ('k, 'p) asm_reactor) \<Rightarrow> (('k, 'p) asm_reactor \<Rightarrow> ('k, 'p) asm_reactor)
     \<Rightarrow> 'k rate_fun \<Rightarrow> ('k, 'p) asm_reactor \<Rightarrow> py_error + ('k, 'p) asm_reactor" where
  "discharge branch_flow_helper discharge_main_outlet dCdt s =
     (let s1 = branch_flow_helper s;
          s2 = s1\<lparr>prev_mo_comps := mo_comps s1\<rparr>;
          s3 = s2\<lparr>prev_so_comps := mo_comps s2\<rparr>
      in case integrate dCdt 7 ''Euler'' (5 / 100) 2 s3 of
           Inl e \<Rightarrow> Inl e
         | Inr s4 \<Rightarrow> Inr (discharge_main_outlet (s4\<lparr>so_comps := mo_comps s4\<rparr>)))"

subsection \<open>The partition bound in the words of the specification\<close>

text \<open>
  Section 4.1 of the specification: for each component index of a partition whose rate
  is nonzero the candidate bound is \<open>concentration / |rate|\<close>, and the maximum stable
  step of the partition is the minimum candidate bound. The partition is the index range
  \<open>lo \<le> i < hi\<close>. This definition is not taken from the code; it is what
  \<open>max_steps\<close> is compared with.
\<close>

definition partition_bound :: "real list \<Rightarrow> real list \<Rightarrow> nat \<Rightarrow> nat \<Rightarrow> real" where
  "partition_bound c d lo hi =
     Min (set (map (\<lambda>i. c ! i / \<bar>d ! i\<bar>) (filter (\<lambda>i. d ! i \<noteq> 0) [lo..<hi])))"

subsection \<open>Example inputs\<close>

text \<open>
  A reactor with two components, \<open>[10, 5]\<close>, in the liquor and in both outlet views.
  In the examples the kinetics object is the pair (temperature, dissolved oxygen), at the
  constructor's defaults 20 and 2.
\<close>

definition two_comp_reactor :: "(real \<times> real, unit) asm_reactor" where
  "two_comp_reactor =
     \<lparr>name = ''ASMReactor_1'', active_vol = 38000, swd = 7 / 2, area = 38000 / (7 / 2),
      total_inflow = 100, in_comps = [0, 0], mo_comps = [10, 5], so_comps = [10, 5],
      prev_mo_comps = [0, 0], prev_so_comps = [0, 0], sludge_comps = [10, 5],
      sludge_kin = (20, 2), pipe_state = (), rate_calls = [], console = []\<rparr>"

text \<open>A rate function that returns the same vector whatever the state.\<close>

definition const_rate :: "real list \<Rightarrow> 'k rate_fun" where
  "const_rate r kin vol flow inc mo = r"

text \<open>The linear decay law \<open>rate[i] = - k\<^sub>i * current[i]\<close>.\<close>

definition decay_rate :: "real list \<Rightarrow> 'k rate_fun" where
  "decay_rate ks kin vol flow inc mo = map2 (\<lambda>k c. - k * c) ks mo"

text \<open>The linear decay law computed with rounding: \<open>rate[i] = fl (- k\<^sub>i * current[i])\<close>.\<close>

definition decay_rate_fl :: "(real \<Rightarrow> real) \<Rightarrow> real list \<Rightarrow> 'k rate_fun" where
  "decay_rate_fl fl ks kin vol flow inc mo = map2 (\<lambda>k c. fl (- k * c)) ks mo"

text \<open>A rounding for the examples: every result is taken one part in a thousand too large.\<close>

definition round_up_1000 :: "real \<Rightarrow> real" where
  "round_up_1000 x = x * (1001 / 1000)"

text \<open>
  A reactor with thirteen components (seven soluble, six particulate, as the fixed
  arguments of \<^verbatim>\<open>discharge\<close> expect) right after \<^verbatim>\<open>assign_initial_guess\<close> on a
  reactor whose vectors were all zero: the liquor and the main outlet hold the guess,
  the secondary outlet still holds zeros.
\<close>

definition zero13 :: "real list" where
  "zero13 = [0, 0, 0, 0, 0, 0, 0, 0, 0, 0, 0, 0, 0]"

definition ones13 :: "real list" where
  "ones13 = [1, 1, 1, 1, 1, 1, 1, 1, 1, 1, 1, 1, 1]"

definition fresh_reactor :: "(real \<times> real, unit) asm_reactor" where
  "fresh_reactor =
     \<lparr>name = ''ASMReactor_1'', active_vol = 38000, swd = 7 / 2, area = 38000 / (7 / 2),
      total_inflow = 100, in_comps = zero13, mo_comps = zero13, so_comps = zero13,
      prev_mo_comps = zero13, prev_so_comps = zero13, sludge_comps = zero13,
      sludge_kin = (20, 2), pipe_state = (), rate_calls = [], console = []\<rparr>"

definition seeded_reactor :: "(real \<times> real, unit) asm_reactor" where
  "seeded_reactor = assign_initial_guess ones13 fresh_reactor"

text \<open>A condition updater for the examples: it stores the two values it is given.\<close>

definition store_condition :: "real \<Rightarrow> real \<Rightarrow> real \<times> real \<Rightarrow> real \<times> real" where
  "store_condition Temperature DO kin = (Temperature, DO)"

section \<open>Properties\<close>

subsection \<open>Auxiliary facts\<close>




lemma uppers_total:
  "(\<And>i. i \<in> set idx \<Longrightarrow> 0 \<le> i \<and> nat i < length d \<and> nat i < length c) \<Longrightarrow>
   uppers d c idx = Inr (map (\<lambda>i. c ! nat i / \<bar>d ! nat i\<bar>) (filter (\<lambda>i. d ! nat i \<noteq> 0) idx))"
proof (induction idx)
  case Nil
  show ?case by simp
next
  case (Cons i idx)
  have i: "0 \<le> i" "nat i < length d" "nat i < length c" using Cons.prems[of i] by simp_all
  have rest: "uppers d c idx =
      Inr (map (\<lambda>i. c ! nat i / \<bar>d ! nat i\<bar>) (filter (\<lambda>i. d ! nat i \<noteq> 0) idx))"
    by (rule Cons.IH) (simp add: Cons.prems)
  have d: "py_getitem d i = Inr (d ! nat i)" using i by (simp add: py_getitem_def Let_def)
  have c: "py_getitem c i = Inr (c ! nat i)" using i by (simp add: py_getitem_def Let_def)
  show ?case by (simp add: d c rest)
qed

lemma map_nat_upto: "0 \<le> a \<Longrightarrow> map nat [a..b - 1] = [nat a..<nat b]"
proof (induction "nat (b - a)" arbitrary: a)
  case 0
  then show ?case by simp
next
  case (Suc n)
  then have ab: "a < b" by linarith
  then have "[a..b - 1] = a # [a + 1..b - 1]" by (simp add: upto_rec1)
  moreover have "map nat [a + 1..b - 1] = [nat (a + 1)..<nat b]"
    using Suc by (intro Suc.hyps) linarith+
  moreover have "nat (a + 1) = Suc (nat a)" using Suc.prems by linarith
  moreover have "nat a < nat b" using ab Suc.prems by linarith
  ultimately show ?case by (simp add: upt_conv_Cons)
qed

lemma uppers_range:
  assumes "0 \<le> a" "nat b \<le> length d" "nat b \<le> length c"
  shows "uppers d c (py_range a b) =
     Inr (map (\<lambda>i. c ! i / \<bar>d ! i\<bar>) (filter (\<lambda>i. d ! i \<noteq> 0) [nat a..<nat b]))"
proof -
  have "uppers d c [a..b - 1] =
      Inr (map (\<lambda>i. c ! nat i / \<bar>d ! nat i\<bar>) (filter (\<lambda>i. d ! nat i \<noteq> 0) [a..b - 1]))"
  proof (rule uppers_total)
    fix i assume "i \<in> set [a..b - 1]"
    then have "a \<le> i" "i < b" by simp_all
    then show "0 \<le> i \<and> nat i < length d \<and> nat i < length c" using assms by linarith
  qed
  moreover have "map (\<lambda>i. c ! nat i / \<bar>d ! nat i\<bar>) (filter (\<lambda>i. d ! nat i \<noteq> 0) [a..b - 1])
      = map (\<lambda>i. c ! i / \<bar>d ! i\<bar>) (filter (\<lambda>i. d ! i \<noteq> 0) (map nat [a..b - 1]))"
    by (simp add: filter_map o_def)
  ultimately show ?thesis using assms(1) by (simp add: py_range_def map_nat_upto)
qed

lemma py_min_nonempty: "xs \<noteq> [] \<Longrightarrow> py_min xs = Inr (Min (set xs))"
  by (cases xs) (simp_all add: Min.set_eq_fold [symmetric] del: set_simps)

lemma py_min_error: "py_min xs = Inl e \<longleftrightarrow> xs = [] \<and> e = ValueError"
  by (cases xs) auto

lemma candidates_nonempty:
  "lo \<le> i \<Longrightarrow> i < hi \<Longrightarrow> d ! i \<noteq> 0 \<Longrightarrow>
   map (\<lambda>i. c ! i / \<bar>d ! i\<bar>) (filter (\<lambda>i. d ! i \<noteq> (0::real)) [lo..<hi]) \<noteq> []"
  by (auto simp: filter_empty_conv)

lemma max_steps_nondegenerate:
  assumes fip: "0 \<le> fip" "nat fip \<le> length d" and len: "length d \<le> length c"
    and sol: "i < nat fip" "d ! i \<noteq> 0"
    and part: "nat fip \<le> j" "j < length d" "d ! j \<noteq> 0"
  shows "max_steps d c fip =
     Inr (partition_bound c d 0 (nat fip), partition_bound c d (nat fip) (length d))"
proof -
  have us: "uppers d c (py_range 0 fip) =
      Inr (map (\<lambda>i. c ! i / \<bar>d ! i\<bar>) (filter (\<lambda>i. d ! i \<noteq> 0) [0..<nat fip]))"
    using uppers_range[of 0 fip d c] fip len by simp
  have up: "uppers d c (py_range fip (int (length d))) =
      Inr (map (\<lambda>i. c ! i / \<bar>d ! i\<bar>) (filter (\<lambda>i. d ! i \<noteq> 0) [nat fip..<length d]))"
    using uppers_range[of fip "int (length d)" d c] fip len by simp
  have ms: "py_min (map (\<lambda>i. c ! i / \<bar>d ! i\<bar>) (filter (\<lambda>i. d ! i \<noteq> 0) [0..<nat fip])) =
      Inr (partition_bound c d 0 (nat fip))"
    unfolding partition_bound_def
    by (rule py_min_nonempty, rule candidates_nonempty[of 0 i]) (use sol in simp_all)
  have mp: "py_min (map (\<lambda>i. c ! i / \<bar>d ! i\<bar>) (filter (\<lambda>i. d ! i \<noteq> 0) [nat fip..<length d])) =
      Inr (partition_bound c d (nat fip) (length d))"
    unfolding partition_bound_def
    by (rule py_min_nonempty, rule candidates_nonempty[of _ j]) (use part in simp_all)
  show ?thesis by (simp add: max_steps_def us up ms mp)
qed

lemma euler_update_pointwise:
  "distinct idx \<Longrightarrow> (\<And>i. i \<in> set idx \<Longrightarrow> i < length c \<and> i < length d) \<Longrightarrow>
   \<exists>c'. euler_update c d h idx = Inr c' \<and> length c' = length c \<and>
     (\<forall>j<length c. c' ! j = (if j \<in> set idx then c ! j + d ! j * h else c ! j))"
proof (induction idx arbitrary: c)
  case Nil
  then show ?case by simp
next
  case (Cons i idx)
  let ?c1 = "c[i := c ! i + d ! i * h]"
  have i: "i < length c" "i < length d" "i \<notin> set idx" using Cons.prems by auto
  have "\<exists>c'. euler_update ?c1 d h idx = Inr c' \<and> length c' = length ?c1 \<and>
     (\<forall>j<length ?c1. c' ! j = (if j \<in> set idx then ?c1 ! j + d ! j * h else ?c1 ! j))"
    using Cons.prems by (intro Cons.IH) auto
  then obtain c' where c': "euler_update ?c1 d h idx = Inr c'" "length c' = length c"
    "\<And>j. j < length c \<Longrightarrow> c' ! j = (if j \<in> set idx then ?c1 ! j + d ! j * h else ?c1 ! j)"
    by auto
  have "euler_update c d h (i # idx) = Inr c'" using i c'(1) by simp
  moreover have "\<forall>j<length c. c' ! j = (if j \<in> set (i # idx) then c ! j + d ! j * h else c ! j)"
    using i c'(3) by (auto simp: nth_list_update)
  ultimately show ?case using c'(2) by blast
qed

lemma euler_update_total:
  assumes "length c = n" "n \<le> length d"
  shows "euler_update c d h [0..<n] = Inr (map (\<lambda>i. c ! i + d ! i * h) [0..<n])"
proof -
  obtain c' where c': "euler_update c d h [0..<n] = Inr c'" "length c' = length c"
    "\<forall>j<length c. c' ! j = (if j \<in> set [0..<n] then c ! j + d ! j * h else c ! j)"
    using euler_update_pointwise[of "[0..<n]" c d h] assms by auto
  have "c' = map (\<lambda>i. c ! i + d ! i * h) [0..<n]"
    using c'(2,3) assms by (intro nth_equalityI) auto
  then show ?thesis using c'(1) by simp
qed

lemma euler_total:
  fixes s :: "('k, 'p) asm_reactor"
  assumes lc: "length (sludge_comps s) = length (mo_comps s)"
    and ld: "length (dCdt (sludge_kin s) (active_vol s) (total_inflow s) (in_comps s) (mo_comps s))
          = length (mo_comps s)"
    and fip: "0 \<le> fip" "nat fip \<le> length (mo_comps s)"
    and sol: "i < nat fip"
          "dCdt (sludge_kin s) (active_vol s) (total_inflow s) (in_comps s) (mo_comps s) ! i \<noteq> 0"
    and part: "nat fip \<le> j" "j < length (mo_comps s)"
          "dCdt (sludge_kin s) (active_vol s) (total_inflow s) (in_comps s) (mo_comps s) ! j \<noteq> 0"
  shows "let d = dCdt (sludge_kin s) (active_vol s) (total_inflow s) (in_comps s) (mo_comps s);
             c = sludge_comps s;
             h = f_s * partition_bound c d 0 (nat fip);
             nxt = map (\<lambda>i. c ! i + d ! i * h) [0..<length c]
         in euler dCdt fip f_s f_p s =
              Inr (s\<lparr>sludge_comps := nxt, mo_comps := nxt, so_comps := nxt,
                     rate_calls := rate_calls s @
                       [(active_vol s, total_inflow s, in_comps s, mo_comps s)]\<rparr>)"
proof -
  define d where "d = dCdt (sludge_kin s) (active_vol s) (total_inflow s) (in_comps s) (mo_comps s)"
  define c where "c = sludge_comps s"
  define h where "h = f_s * partition_bound c d 0 (nat fip)"
  have "max_steps d c fip =
      Inr (partition_bound c d 0 (nat fip), partition_bound c d (nat fip) (length d))"
  proof (rule max_steps_nondegenerate[of fip d c i j])
    show "0 \<le> fip" by (rule fip(1))
    show "nat fip \<le> length d" using fip(2) ld by (simp add: d_def)
    show "length d \<le> length c" using ld lc by (simp add: d_def c_def)
    show "i < nat fip" by (rule sol(1))
    show "d ! i \<noteq> 0" using sol(2) by (simp add: d_def)
    show "nat fip \<le> j" by (rule part(1))
    show "j < length d" using part(2) ld by (simp add: d_def)
    show "d ! j \<noteq> 0" using part(3) by (simp add: d_def)
  qed
  then have steps: "euler_steps f_s f_p d c fip =
      Inr (h, f_s * partition_bound c d (nat fip) (length d))"
    by (simp add: euler_steps_def h_def)
  have upd: "euler_update c d h [0..<length (mo_comps s)] =
      Inr (map (\<lambda>i. c ! i + d ! i * h) [0..<length c])"
    using euler_update_total[of c "length (mo_comps s)" d h] lc ld by (simp add: c_def d_def)
  have "euler dCdt fip f_s f_p s =
      Inr (s\<lparr>sludge_comps := map (\<lambda>i. c ! i + d ! i * h) [0..<length c],
             mo_comps := map (\<lambda>i. c ! i + d ! i * h) [0..<length c],
             so_comps := map (\<lambda>i. c ! i + d ! i * h) [0..<length c],
             rate_calls := rate_calls s @
               [(active_vol s, total_inflow s, in_comps s, mo_comps s)]\<rparr>)"
    unfolding euler_def call_dCdt_def
    by (simp add: d_def[symmetric] c_def[symmetric] steps upd)
  then show ?thesis
    unfolding Let_def d_def[symmetric] c_def[symmetric] h_def[symmetric] by simp
qed

lemma partition_bound_le:
  assumes "lo \<le> i" "i < hi" "d ! i \<noteq> 0"
  shows "partition_bound c d lo hi \<le> c ! i / \<bar>d ! i\<bar>"
  unfolding partition_bound_def using assms by (intro Min_le) auto

lemma partition_bound_nonneg:
  assumes "lo \<le> i" "i < hi" "d ! i \<noteq> 0" and "\<And>j. lo \<le> j \<Longrightarrow> j < hi \<Longrightarrow> 0 \<le> c ! j"
  shows "0 \<le> partition_bound c d lo hi"
proof -
  let ?B = "set (map (\<lambda>i. c ! i / \<bar>d ! i\<bar>) (filter (\<lambda>i. d ! i \<noteq> 0) [lo..<hi]))"
  have "?B \<noteq> {}" using assms(1-3) by auto
  then have "Min ?B \<in> ?B" by (intro Min_in) simp_all
  then obtain j where "lo \<le> j" "j < hi" "Min ?B = c ! j / \<bar>d ! j\<bar>" by auto
  then show ?thesis using assms(4)[of j] by (simp add: partition_bound_def)
qed

lemma euler_sums:
  "euler dCdt fip f_s f_p s = Inr s' \<Longrightarrow>
     mo_comps s' = sludge_comps s' \<and> so_comps s' = sludge_comps s' \<and> console s' = console s
     \<and> prev_mo_comps s' = prev_mo_comps s \<and> prev_so_comps s' = prev_so_comps s"
  unfolding euler_def call_dCdt_def by (auto split: sum.splits prod.splits)

lemma rk4_sums:
  "runge_kutta_4 dCdt fip f_s f_p s = Inr s' \<Longrightarrow>
     mo_comps s' = sludge_comps s' \<and> so_comps s' = sludge_comps s' \<and> console s' = console s
     \<and> prev_mo_comps s' = prev_mo_comps s \<and> prev_so_comps s' = prev_so_comps s"
  unfolding runge_kutta_4_def call_dCdt_def by (auto split: sum.splits prod.splits)

lemma uppers_zero:
  "(\<And>i. i \<in> set idx \<Longrightarrow> 0 \<le> i \<and> nat i < length d \<and> d ! nat i = 0) \<Longrightarrow> uppers d c idx = Inr []"
proof (induction idx)
  case Nil
  show ?case by simp
next
  case (Cons i idx)
  have "0 \<le> i" "i < int (length d)" "d ! nat i = 0" using Cons.prems[of i] by auto
  then have "py_getitem d i = Inr 0" by (simp add: py_getitem_def Let_def)
  moreover have "uppers d c idx = Inr []" by (rule Cons.IH) (simp add: Cons.prems)
  ultimately show ?case by simp
qed

lemma max_steps_soluble_all_zero:
  assumes "0 \<le> fip" "nat fip \<le> length d" "length d \<le> length c" "\<And>i. i < nat fip \<Longrightarrow> d ! i = 0"
  shows "max_steps d c fip = Inl ValueError"
proof -
  have "uppers d c (py_range 0 fip) = Inr []"
  proof (rule uppers_zero)
    fix i assume "i \<in> set (py_range 0 fip)"
    then have i: "0 \<le> i" "i < fip" by (simp_all add: py_range_def)
    then have "nat i < nat fip" by linarith
    then show "0 \<le> i \<and> nat i < length d \<and> d ! nat i = 0" using i assms by simp
  qed
  moreover have "\<exists>up. uppers d c (py_range fip (int (length d))) = Inr up"
    using uppers_range[of fip "int (length d)" d c] assms by simp
  ultimately show ?thesis by (auto simp: max_steps_def)
qed

lemma integrators_raise_on_zero_soluble_rates:
  fixes s :: "('k, 'p) asm_reactor"
  assumes "length (sludge_comps s) = length (mo_comps s)"
    and "length (dCdt (sludge_kin s) (active_vol s) (total_inflow s) (in_comps s) (mo_comps s))
          = length (mo_comps s)"
    and "0 \<le> fip" "nat fip \<le> length (mo_comps s)"
    and "\<And>i. i < nat fip \<Longrightarrow>
          dCdt (sludge_kin s) (active_vol s) (total_inflow s) (in_comps s) (mo_comps s) ! i = 0"
  shows "euler dCdt fip f_s f_p s = Inl ValueError"
    and "runge_kutta_4 dCdt fip f_s f_p s = Inl ValueError"
proof -
  have "max_steps (dCdt (sludge_kin s) (active_vol s) (total_inflow s) (in_comps s) (mo_comps s))
      (sludge_comps s) fip = Inl ValueError"
    using assms by (intro max_steps_soluble_all_zero) simp_all
  then show "euler dCdt fip f_s f_p s = Inl ValueError"
    and "runge_kutta_4 dCdt fip f_s f_p s = Inl ValueError"
    by (simp_all add: euler_def runge_kutta_4_def call_dCdt_def euler_steps_def rk4_steps_def)
qed

subsection \<open>Auxiliary facts on the rounded Euler integrator\<close>

lemma uppers_fl_uppers: "uppers_fl fl d c idx = map_sum id (map fl) (uppers d c idx)"
  by (induction idx) (auto split: sum.splits)

lemma euler_fl_exact: "euler_fl (\<lambda>x. x) dCdt fip f_s f_p s = euler dCdt fip f_s f_p s"
proof -
  have u: "uppers_fl (\<lambda>x. x) d c idx = uppers d c idx" for d c idx
    by (induction idx) (auto split: sum.splits)
  have m: "max_steps_fl (\<lambda>x. x) d c k = max_steps d c k" for d c k
    unfolding max_steps_fl_def max_steps_def u by (rule refl)
  have e: "euler_update_fl (\<lambda>x. x) c d h idx = euler_update c d h idx" for c d h idx
    by (induction idx arbitrary: c) auto
  show ?thesis
    unfolding euler_fl_def euler_def euler_steps_fl_def euler_steps_def m e by (rule refl)
qed

lemma euler_update_fl_pointwise:
  "distinct idx \<Longrightarrow> (\<And>i. i \<in> set idx \<Longrightarrow> i < length c \<and> i < length d) \<Longrightarrow>
   \<exists>c'. euler_update_fl fl c d h idx = Inr c' \<and> length c' = length c \<and>
     (\<forall>j<length c. c' ! j = (if j \<in> set idx then fl (c ! j + fl (d ! j * h)) else c ! j))"
proof (induction idx arbitrary: c)
  case Nil
  then show ?case by simp
next
  case (Cons i idx)
  let ?c1 = "c[i := fl (c ! i + fl (d ! i * h))]"
  have i: "i < length c" "i < length d" "i \<notin> set idx" using Cons.prems by auto
  have "\<exists>c'. euler_update_fl fl ?c1 d h idx = Inr c' \<and> length c' = length ?c1 \<and>
     (\<forall>j<length ?c1. c' ! j = (if j \<in> set idx then fl (?c1 ! j + fl (d ! j * h)) else ?c1 ! j))"
    using Cons.prems by (intro Cons.IH) auto
  then obtain c' where c': "euler_update_fl fl ?c1 d h idx = Inr c'" "length c' = length c"
    "\<And>j. j < length c \<Longrightarrow>
       c' ! j = (if j \<in> set idx then fl (?c1 ! j + fl (d ! j * h)) else ?c1 ! j)"
    by auto
  have "euler_update_fl fl c d h (i # idx) = Inr c'" using i c'(1) by simp
  moreover have "\<forall>j<length c. c' ! j =
      (if j \<in> set (i # idx) then fl (c ! j + fl (d ! j * h)) else c ! j)"
    using i c'(3) by (auto simp: nth_list_update)
  ultimately show ?case using c'(2) by blast
qed

lemma euler_update_fl_total:
  assumes "length c = n" "n \<le> length d"
  shows "euler_update_fl fl c d h [0..<n] = Inr (map (\<lambda>i. fl (c ! i + fl (d ! i * h))) [0..<n])"
proof -
  obtain c' where c': "euler_update_fl fl c d h [0..<n] = Inr c'" "length c' = length c"
    "\<forall>j<length c. c' ! j = (if j \<in> set [0..<n] then fl (c ! j + fl (d ! j * h)) else c ! j)"
    using euler_update_fl_pointwise[of "[0..<n]" c d fl h] assms by auto
  have "c' = map (\<lambda>i. fl (c ! i + fl (d ! i * h))) [0..<n]"
    using c'(2,3) assms by (intro nth_equalityI) auto
  then show ?thesis using c'(1) by simp
qed

lemma max_steps_fl_nondegenerate:
  assumes fip: "0 \<le> fip" "nat fip \<le> length d" and len: "length d \<le> length c"
    and sol: "i < nat fip" "d ! i \<noteq> 0"
    and part: "nat fip \<le> j" "j < length d" "d ! j \<noteq> 0"
  shows "max_steps_fl fl d c fip =
     Inr (Min (set (map (\<lambda>i. fl (c ! i / \<bar>d ! i\<bar>)) (filter (\<lambda>i. d ! i \<noteq> 0) [0..<nat fip]))),
          Min (set (map (\<lambda>i. fl (c ! i / \<bar>d ! i\<bar>)) (filter (\<lambda>i. d ! i \<noteq> 0) [nat fip..<length d]))))"
proof -
  have us: "uppers_fl fl d c (py_range 0 fip) =
      Inr (map (\<lambda>i. fl (c ! i / \<bar>d ! i\<bar>)) (filter (\<lambda>i. d ! i \<noteq> 0) [0..<nat fip]))"
    using uppers_range[of 0 fip d c] fip len by (simp add: uppers_fl_uppers o_def)
  have up: "uppers_fl fl d c (py_range fip (int (length d))) =
      Inr (map (\<lambda>i. fl (c ! i / \<bar>d ! i\<bar>)) (filter (\<lambda>i. d ! i \<noteq> 0) [nat fip..<length d]))"
    using uppers_range[of fip "int (length d)" d c] fip len by (simp add: uppers_fl_uppers o_def)
  have ns: "map (\<lambda>i. fl (c ! i / \<bar>d ! i\<bar>)) (filter (\<lambda>i. d ! i \<noteq> 0) [0..<nat fip]) \<noteq> []"
    using sol by (auto simp: filter_empty_conv)
  have np: "map (\<lambda>i. fl (c ! i / \<bar>d ! i\<bar>)) (filter (\<lambda>i. d ! i \<noteq> 0) [nat fip..<length d]) \<noteq> []"
    using part by (auto simp: filter_empty_conv)
  show ?thesis
    by (simp add: max_steps_fl_def us up py_min_nonempty[OF ns] py_min_nonempty[OF np]
        del: set_map set_filter)
qed

lemma euler_fl_total:
  fixes s :: "('k, 'p) asm_reactor"
  assumes lc: "length (sludge_comps s) = length (mo_comps s)"
    and ld: "length (dCdt (sludge_kin s) (active_vol s) (total_inflow s) (in_comps s) (mo_comps s))
          = length (mo_comps s)"
    and fip: "0 \<le> fip" "nat fip \<le> length (mo_comps s)"
    and sol: "i < nat fip"
          "dCdt (sludge_kin s) (active_vol s) (total_inflow s) (in_comps s) (mo_comps s) ! i \<noteq> 0"
    and part: "nat fip \<le> j" "j < length (mo_comps s)"
          "dCdt (sludge_kin s) (active_vol s) (total_inflow s) (in_comps s) (mo_comps s) ! j \<noteq> 0"
  shows "let d = dCdt (sludge_kin s) (active_vol s) (total_inflow s) (in_comps s) (mo_comps s);
             c = sludge_comps s;
             h = fl (f_s * Min (set (map (\<lambda>i. fl (c ! i / \<bar>d ! i\<bar>))
                                     (filter (\<lambda>i. d ! i \<noteq> 0) [0..<nat fip]))));
             nxt = map (\<lambda>i. fl (c ! i + fl (d ! i * h))) [0..<length c]
         in euler_fl fl dCdt fip f_s f_p s =
              Inr (s\<lparr>sludge_comps := nxt, mo_comps := nxt, so_comps := nxt,
                     rate_calls := rate_calls s @
                       [(active_vol s, total_inflow s, in_comps s, mo_comps s)]\<rparr>)"
proof -
  define d where "d = dCdt (sludge_kin s) (active_vol s) (total_inflow s) (in_comps s) (mo_comps s)"
  define c where "c = sludge_comps s"
  define B where "B = Min (set (map (\<lambda>i. fl (c ! i / \<bar>d ! i\<bar>))
                                     (filter (\<lambda>i. d ! i \<noteq> 0) [0..<nat fip])))"
  define h where "h = fl (f_s * B)"
  have "max_steps_fl fl d c fip =
     Inr (B, Min (set (map (\<lambda>i. fl (c ! i / \<bar>d ! i\<bar>)) (filter (\<lambda>i. d ! i \<noteq> 0) [nat fip..<length d]))))"
    unfolding B_def
  proof (rule max_steps_fl_nondegenerate[of fip d c i j])
    show "0 \<le> fip" by (rule fip(1))
    show "nat fip \<le> length d" using fip(2) ld by (simp add: d_def)
    show "length d \<le> length c" using ld lc by (simp add: d_def c_def)
    show "i < nat fip" by (rule sol(1))
    show "d ! i \<noteq> 0" using sol(2) by (simp add: d_def)
    show "nat fip \<le> j" by (rule part(1))
    show "j < length d" using part(2) ld by (simp add: d_def)
    show "d ! j \<noteq> 0" using part(3) by (simp add: d_def)
  qed
  then have steps: "\<exists>sp. euler_steps_fl fl f_s f_p d c fip = Inr (h, sp)"
    by (simp add: euler_steps_fl_def h_def)
  have upd: "euler_update_fl fl c d h [0..<length (mo_comps s)] =
      Inr (map (\<lambda>i. fl (c ! i + fl (d ! i * h))) [0..<length c])"
    using euler_update_fl_total[of c "length (mo_comps s)" d fl h] lc ld by (simp add: c_def d_def)
  from steps obtain sp where sp: "euler_steps_fl fl f_s f_p d c fip = Inr (h, sp)" by blast
  have "euler_fl fl dCdt fip f_s f_p s =
      Inr (s\<lparr>sludge_comps := map (\<lambda>i. fl (c ! i + fl (d ! i * h))) [0..<length c],
             mo_comps := map (\<lambda>i. fl (c ! i + fl (d ! i * h))) [0..<length c],
             so_comps := map (\<lambda>i. fl (c ! i + fl (d ! i * h))) [0..<length c],
             rate_calls := rate_calls s @
               [(active_vol s, total_inflow s, in_comps s, mo_comps s)]\<rparr>)"
    unfolding euler_fl_def call_dCdt_def
    by (simp add: d_def[symmetric] c_def[symmetric] sp upd)
  then show ?thesis
    unfolding Let_def d_def[symmetric] c_def[symmetric] B_def[symmetric] h_def[symmetric] by simp
qed

lemma rounding_bounds:
  fixes fl :: "real \<Rightarrow> real"
  assumes rnd: "\<And>x. \<bar>fl x - x\<bar> \<le> u * \<bar>x\<bar>" and u: "0 \<le> u" "u < 1"
  shows "0 \<le> x \<Longrightarrow> 0 \<le> fl x"
    and "0 \<le> x \<Longrightarrow> fl x \<le> (1 + u) * x"
    and "x \<le> 0 \<Longrightarrow> (1 + u) * x \<le> fl x"
    and "x < 0 \<Longrightarrow> fl x < 0"
proof -
  have "fl x - x \<le> u * \<bar>x\<bar>" "- (fl x - x) \<le> u * \<bar>x\<bar>"
    using rnd[of x] abs_le_iff[of "fl x - x" "u * \<bar>x\<bar>"] by blast+
  then have lo: "x - u * \<bar>x\<bar> \<le> fl x" and hi: "fl x \<le> x + u * \<bar>x\<bar>"
    by linarith+
  show "0 \<le> fl x" if "0 \<le> x"
  proof -
    have "0 \<le> (1 - u) * x" using that u by simp
    then show ?thesis using lo that by (simp add: algebra_simps)
  qed
  show "fl x \<le> (1 + u) * x" if "0 \<le> x"
    using hi that by (simp add: algebra_simps)
  show "(1 + u) * x \<le> fl x" if "x \<le> 0"
    using lo that by (simp add: algebra_simps)
  show "fl x < 0" if "x < 0"
  proof -
    have "(1 - u) * x < 0" using that u by (simp add: mult_pos_neg)
    moreover have "x + u * \<bar>x\<bar> = (1 - u) * x" using that by (simp add: algebra_simps)
    ultimately show ?thesis using hi by linarith
  qed
qed

lemma round_up_1000_error: "\<bar>round_up_1000 x - x\<bar> \<le> (1 / 1000) * \<bar>x\<bar>"
proof -
  have "round_up_1000 x - x = x / 1000" by (simp add: round_up_1000_def)
  moreover have "\<bar>x / 1000\<bar> = (1 / 1000) * \<bar>x\<bar>" by simp
  ultimately show ?thesis by (simp only: order_refl)
qed

subsection \<open>Runs of the examples\<close>

lemma two_comp_max_steps: "max_steps [-2, -1] [10, 5] 1 = Inr (5, 5)"
  by (simp add: max_steps_def py_range_def py_getitem_def upto.simps)


lemma two_comp_rk4_runs:
  "\<exists>s'. runge_kutta_4 (const_rate [-2, -1]) 1 (1 / 10) 2 two_comp_reactor = Inr s'"
  by (simp add: runge_kutta_4_def rk4_steps_def two_comp_max_steps call_dCdt_def const_rate_def
      rk_stage_def rk_combine_def two_comp_reactor_def upt_rec)

lemma seeded_discharge_runs:
  "discharge id id (decay_rate ones13) seeded_reactor =
     Inr (seeded_reactor
       \<lparr>prev_mo_comps := ones13, prev_so_comps := ones13,
        sludge_comps := map (\<lambda>c. c * (19 / 20)) ones13,
        mo_comps := map (\<lambda>c. c * (19 / 20)) ones13,
        so_comps := map (\<lambda>c. c * (19 / 20)) ones13,
        rate_calls := [(38000, 100, zero13, ones13)]\<rparr>)"
  by (simp add: discharge_def integrate_def euler_def euler_steps_def max_steps_def py_range_def
      py_getitem_def upto.simps call_dCdt_def decay_rate_def seeded_reactor_def fresh_reactor_def
      assign_initial_guess_def ones13_def zero13_def upt_rec)

subsection \<open>The end-to-end Euler scenario\<close>

text \<open>
  C1. With state \<open>[10, 5]\<close>, rate \<open>[-2, -1]\<close>, boundary index 1 and soluble fraction
  \<open>0.1\<close>, the soluble step bound is \<open>10 / 2 = 5\<close>, the scaled soluble step is \<open>0.5\<close>,
  and one Euler step leaves \<open>[9, 4.5]\<close> in the liquor and in both outlet views: the
  soluble step is applied to both components.
\<close>

theorem euler_end_to_end_scenario:
  "map_sum id fst (max_steps [-2, -1] (sludge_comps two_comp_reactor) 1) = Inr 5
   \<and> map_sum id fst (euler_steps (1 / 10) 2 [-2, -1] (sludge_comps two_comp_reactor) 1) = Inr (1 / 2)
   \<and> map_sum id sludge_comps (euler (const_rate [-2, -1]) 1 (1 / 10) 2 two_comp_reactor) = Inr [9, 9 / 2]
   \<and> map_sum id mo_comps (euler (const_rate [-2, -1]) 1 (1 / 10) 2 two_comp_reactor) = Inr [9, 9 / 2]
   \<and> map_sum id so_comps (euler (const_rate [-2, -1]) 1 (1 / 10) 2 two_comp_reactor) = Inr [9, 9 / 2]"
  by (simp add: euler_def euler_steps_def two_comp_max_steps call_dCdt_def const_rate_def
      two_comp_reactor_def upt_rec)

subsection \<open>The Runge-Kutta scheme\<close>




subsection \<open>Degenerate partitions\<close>

text \<open>
  C3. The specification asks that a partition whose rates are all zero be detected and
  given a fallback step, so that an all-zero rate vector leaves the state unchanged. The
  code has no such branch: the zero rates are screened out and the minimum of the empty
  list raises ValueError, in both integrators, whether the whole rate vector or only one
  partition is zero. A discharge cycle of a thirteen-component reactor at steady state
  fails the same way.
\<close>

theorem zero_rates_raise_value_error:
  "euler (const_rate [0, 0]) 1 (1 / 10) 2 two_comp_reactor = Inl ValueError
   \<and> runge_kutta_4 (const_rate [0, 0]) 1 (1 / 10) 2 two_comp_reactor = Inl ValueError
   \<and> euler (const_rate [-2, 0]) 1 (1 / 10) 2 two_comp_reactor = Inl ValueError
   \<and> runge_kutta_4 (const_rate [0, -1]) 1 (1 / 10) 2 two_comp_reactor = Inl ValueError
   \<and> discharge id id (const_rate zero13) seeded_reactor = Inl ValueError"
  by (simp add: euler_def runge_kutta_4_def discharge_def integrate_def call_dCdt_def
      euler_steps_def rk4_steps_def max_steps_def py_range_def py_getitem_def upto.simps
      const_rate_def two_comp_reactor_def seeded_reactor_def fresh_reactor_def
      assign_initial_guess_def zero13_def ones13_def)

subsection \<open>The particulate step\<close>

text \<open>
  C4. The specification scales the particulate bound by the particulate fraction \<open>f_p\<close>
  in both integrators. In the scenario of C1 with \<open>f_s = 0.1\<close> and \<open>f_p = 2\<close>, both
  bounds are 5: \<^verbatim>\<open>_runge_kutta_4\<close> computes the particulate step \<open>2 * 5 = 10\<close>, while
  \<^verbatim>\<open>_euler\<close> multiplies by the soluble fraction and computes \<open>0.1 * 5 = 0.5\<close>.
\<close>

theorem euler_particulate_step_uses_soluble_fraction:
  "euler_steps (1 / 10) 2 [-2, -1] [10, 5] 1 = Inr (1 / 2, 1 / 2)
   \<and> rk4_steps (1 / 10) 2 [-2, -1] [10, 5] 1 = Inr (1 / 2, 10)
   \<and> (1 / 10) * partition_bound [10, 5] [-2, -1] 0 1 = 1 / 2
   \<and> 2 * partition_bound [10, 5] [-2, -1] 1 2 = 10"
  by (simp add: euler_steps_def rk4_steps_def two_comp_max_steps partition_bound_def upt_rec)

subsection \<open>Non-negativity under linear decay\<close>

text \<open>
  The claim C5 as stated fails: with decay constants \<open>[1, 100]\<close>, state \<open>[10, 5]\<close>,
  boundary index 1 and soluble fraction \<open>0.1\<close> the step is \<open>0.1\<close>, and the particulate
  component becomes \<open>5 - 500 * 0.1 = -45\<close>.
\<close>

theorem euler_decay_particulate_counterexample:
  "map_sum id sludge_comps (euler (decay_rate [1, 100]) 1 (1 / 10) 2 two_comp_reactor)
     = Inr [9, - 45]
   \<and> \<not> 0 \<le> [9, - 45 :: real] ! 1"
  by (simp add: euler_def euler_steps_def max_steps_def py_range_def py_getitem_def upto.simps
      call_dCdt_def decay_rate_def two_comp_reactor_def upt_rec)

text \<open>
  C5, amended. The arithmetic is rounded: every operation returns its exact result
  with a relative error of at most \<open>u < 1\<close> (for doubles \<open>u = 1 / 2\<^sup>5\<^sup>3\<close>, away from overflow
  and underflow). For the linear decay law with positive constants and positive
  concentrations, on a reactor whose liquor and main-outlet vectors agree, with the
  boundary strictly inside the vector and a soluble fraction \<open>f_s \<ge> 0\<close> with
  \<open>f_s (1 + u)\<^sup>3 \<le> 1\<close>, one Euler step returns normally, keeps the length of the
  vector, and leaves every soluble component (index below the boundary) non-negative.
  Nothing is promised for the particulate components, to which the soluble step is
  applied, nor for \<open>f_s = 1\<close> under rounding, where the three rounded operations between
  the bound and the update can carry a soluble component just below zero.
\<close>

theorem euler_rounded_decay_soluble_nonneg:
  fixes s :: "('k, 'p) asm_reactor"
  assumes rnd: "\<And>x. \<bar>fl x - x\<bar> \<le> u * \<bar>x\<bar>" and u: "0 \<le> u" "u < 1"
    and cstr: "sludge_comps s = mo_comps s"
    and law: "dCdt (sludge_kin s) (active_vol s) (total_inflow s) (in_comps s) (mo_comps s)
          = map2 (\<lambda>k c. fl (- k * c)) ks (mo_comps s)"
    and lks: "length ks = length (mo_comps s)"
    and kpos: "\<forall>k\<in>set ks. 0 < k"
    and cpos: "\<forall>c\<in>set (mo_comps s). 0 < c"
    and fip: "0 < fip" "nat fip < length (mo_comps s)"
    and fs: "0 \<le> f_s" "f_s * (1 + u) ^ 3 \<le> 1"
  shows "\<exists>s'. euler_fl fl dCdt fip f_s f_p s = Inr s'
           \<and> length (sludge_comps s') = length (mo_comps s)
           \<and> (\<forall>i<nat fip. 0 \<le> sludge_comps s' ! i)"
proof -
  note fl = rounding_bounds[of fl u, OF rnd u]
  define c where "c = mo_comps s"
  define d where "d = dCdt (sludge_kin s) (active_vol s) (total_inflow s) (in_comps s) (mo_comps s)"
  define U where "U = map (\<lambda>i. fl (c ! i / \<bar>d ! i\<bar>)) (filter (\<lambda>i. d ! i \<noteq> 0) [0..<nat fip])"
  define h where "h = fl (f_s * Min (set U))"
  have ld: "length d = length c" using law lks by (simp add: d_def c_def)
  have dneg: "d ! i < 0" and cpos': "0 < c ! i" if "i < length c" for i
  proof -
    have k: "0 < ks ! i" using kpos lks that by (simp add: c_def)
    show ci: "0 < c ! i" using cpos that by (simp add: c_def)
    have "d ! i = fl (- ks ! i * c ! i)" using law lks that by (simp add: d_def c_def)
    moreover have "- ks ! i * c ! i < 0" using k ci by (simp add: mult_pos_pos)
    ultimately show "d ! i < 0" using fl(4) by simp
  qed
  have run: "euler_fl fl dCdt fip f_s f_p s =
      Inr (s\<lparr>sludge_comps := map (\<lambda>i. fl (c ! i + fl (d ! i * h))) [0..<length c],
             mo_comps := map (\<lambda>i. fl (c ! i + fl (d ! i * h))) [0..<length c],
             so_comps := map (\<lambda>i. fl (c ! i + fl (d ! i * h))) [0..<length c],
             rate_calls := rate_calls s @
               [(active_vol s, total_inflow s, in_comps s, mo_comps s)]\<rparr>)"
  proof -
    have "0 < nat fip" "nat fip < length c" using fip by (simp_all add: c_def)
    then have "d ! 0 < 0" "d ! nat fip < 0" by (auto intro: dneg)
    then have nz: "d ! 0 \<noteq> 0" "d ! nat fip \<noteq> 0" by simp_all
    have "let d = dCdt (sludge_kin s) (active_vol s) (total_inflow s) (in_comps s) (mo_comps s);
              c = sludge_comps s;
              h = fl (f_s * Min (set (map (\<lambda>i. fl (c ! i / \<bar>d ! i\<bar>))
                                      (filter (\<lambda>i. d ! i \<noteq> 0) [0..<nat fip]))));
              nxt = map (\<lambda>i. fl (c ! i + fl (d ! i * h))) [0..<length c]
          in euler_fl fl dCdt fip f_s f_p s =
               Inr (s\<lparr>sludge_comps := nxt, mo_comps := nxt, so_comps := nxt,
                      rate_calls := rate_calls s @
                        [(active_vol s, total_inflow s, in_comps s, mo_comps s)]\<rparr>)"
      by (rule euler_fl_total[where i = 0 and j = "nat fip"])
        (use cstr fip ld nz in \<open>simp_all add: d_def c_def\<close>)
    then show ?thesis by (simp add: Let_def c_def d_def U_def h_def cstr)
  qed
  have nonneg: "0 \<le> fl (c ! i + fl (d ! i * h))" if i: "i < nat fip" for i
  proof -
    have il: "i < length c" using i fip by (simp add: c_def)
    define a where "a = \<bar>d ! i\<bar>"
    have a: "0 < a" "d ! i = - a" using dneg[OF il] by (simp_all add: a_def)
    have ci: "0 < c ! i" by (rule cpos'[OF il])
    have "d ! i \<noteq> 0" using dneg[OF il] by simp
    then have "fl (c ! i / \<bar>d ! i\<bar>) \<in> set U" using i by (auto simp: U_def)
    then have mem: "fl (c ! i / a) \<in> set U" by (simp only: a_def)
    have "Min (set U) \<in> set U" using mem by (intro Min_in) auto
    then obtain j where j: "j < nat fip" "Min (set U) = fl (c ! j / \<bar>d ! j\<bar>)"
      by (auto simp: U_def)
    have "j < length c" using j(1) fip by (simp add: c_def)
    then have "0 \<le> c ! j / \<bar>d ! j\<bar>" using cpos'[of j] by simp
    then have B0: "0 \<le> Min (set U)" using fl(1) j(2) by simp
    have "Min (set U) \<le> fl (c ! i / a)" using mem by (intro Min_le) auto
    also have "\<dots> \<le> (1 + u) * (c ! i / a)" using ci a(1) by (intro fl(2)) simp
    finally have B1: "Min (set U) \<le> (1 + u) * (c ! i / a)" .
    have h0: "0 \<le> h" unfolding h_def using fs(1) B0 by (intro fl(1)) simp
    have "h \<le> (1 + u) * (f_s * Min (set U))"
      unfolding h_def using fs(1) B0 by (intro fl(2)) simp
    also have "\<dots> \<le> (1 + u) * (f_s * ((1 + u) * (c ! i / a)))"
      using B1 fs(1) u(1) by (intro mult_left_mono) simp_all
    finally have "h \<le> (1 + u) * (f_s * ((1 + u) * (c ! i / a)))" .
    then have "a * h \<le> a * ((1 + u) * (f_s * ((1 + u) * (c ! i / a))))"
      using a(1) by (intro mult_left_mono) simp_all
    also have "\<dots> = f_s * (1 + u) ^ 2 * (a * (c ! i / a))"
      by (simp only: power2_eq_square mult_ac)
    also have "a * (c ! i / a) = c ! i" using a(1) by simp
    finally have ah: "a * h \<le> f_s * (1 + u) ^ 2 * c ! i" .
    have "(1 + u) * (a * h) \<le> (1 + u) * (f_s * (1 + u) ^ 2 * c ! i)"
      using ah u(1) by (intro mult_left_mono) simp_all
    also have "\<dots> = (f_s * (1 + u) ^ 3) * c ! i"
      by (simp only: power2_eq_square power3_eq_cube mult_ac)
    also have "\<dots> \<le> 1 * c ! i"
      using fs(2) ci by (intro mult_right_mono) simp_all
    finally have bound: "(1 + u) * (a * h) \<le> c ! i" by simp
    have "d ! i * h \<le> 0" using a h0 by (simp add: mult_nonneg_nonneg)
    then have "(1 + u) * (d ! i * h) \<le> fl (d ! i * h)" by (rule fl(3))
    moreover have "(1 + u) * (d ! i * h) = - ((1 + u) * (a * h))" by (simp add: a(2))
    ultimately have "0 \<le> c ! i + fl (d ! i * h)" using bound by linarith
    then show ?thesis by (rule fl(1))
  qed
  have "nat fip \<le> length c" using fip by (simp add: c_def)
  then show ?thesis using run nonneg by (simp add: c_def[symmetric])
qed

theorem euler_rounded_decay_soluble_nonneg_witness:
  "\<exists>s'. euler_fl round_up_1000 (decay_rate_fl round_up_1000 [1, 100]) 1 (1 / 10) 2 two_comp_reactor
           = Inr s'
        \<and> length (sludge_comps s') = length (mo_comps two_comp_reactor)
        \<and> 0 \<le> sludge_comps s' ! 0"
proof -
  have "(1 / 10) * (1 + 1 / 1000) ^ 3 \<le> (1 :: real)" by (simp add: power3_eq_cube)
  then show ?thesis
    using euler_rounded_decay_soluble_nonneg [where s = two_comp_reactor
        and dCdt = "decay_rate_fl round_up_1000 [1, 100]" and fl = round_up_1000
        and u = "1 / 1000" and ks = "[1, 100]" and fip = 1 and f_s = "1 / 10" and f_p = 2,
        OF round_up_1000_error]
    by (simp add: two_comp_reactor_def decay_rate_fl_def)
qed

subsection \<open>The snapshots of the discharge cycle\<close>

text \<open>
  The claim C6 as stated fails for the secondary outlet. After \<^verbatim>\<open>assign_initial_guess\<close>
  the main outlet holds the guess while the secondary outlet still holds its old
  value; the cycle then copies the main-outlet vector into both snapshots, so the
  secondary snapshot is not the secondary outlet's own value before the cycle.
\<close>

theorem discharge_secondary_snapshot_counterexample:
  "map_sum id prev_so_comps (discharge id id (decay_rate ones13) seeded_reactor)
     = Inr (mo_comps seeded_reactor)
   \<and> map_sum id prev_so_comps (discharge id id (decay_rate ones13) seeded_reactor)
     \<noteq> Inr (so_comps seeded_reactor)"
  by (simp add: seeded_discharge_runs)
    (simp add: seeded_reactor_def fresh_reactor_def assign_initial_guess_def ones13_def zero13_def)

text \<open>
  C6, amended. When the flow helper leaves the main-outlet vector alone and the
  main-outlet discharge leaves the two snapshots alone, after a discharge cycle that
  completes both \<^verbatim>\<open>_prev_mo_comps\<close> and \<^verbatim>\<open>_prev_so_comps\<close> equal the main-outlet
  vector as it was before the cycle. The secondary snapshot therefore equals the
  secondary outlet's own value before the cycle whenever the two outlet vectors agreed
  before the cycle.
\<close>

theorem discharge_snapshots_main_outlet:
  assumes bfh: "mo_comps (branch_flow_helper s) = mo_comps s"
    and dmo: "\<And>t. prev_mo_comps (discharge_main_outlet t) = prev_mo_comps t
                  \<and> prev_so_comps (discharge_main_outlet t) = prev_so_comps t"
    and run: "discharge branch_flow_helper discharge_main_outlet dCdt s = Inr s'"
  shows "prev_mo_comps s' = mo_comps s \<and> prev_so_comps s' = mo_comps s
         \<and> (so_comps s = mo_comps s \<longrightarrow> prev_so_comps s' = so_comps s)"
proof -
  let ?s3 = "(branch_flow_helper s)\<lparr>prev_mo_comps := mo_comps (branch_flow_helper s),
      prev_so_comps := mo_comps (branch_flow_helper s)\<rparr>"
  from run obtain s4 where s4: "euler dCdt 7 (5 / 100) 2 ?s3 = Inr s4"
    and s': "s' = discharge_main_outlet (s4\<lparr>so_comps := mo_comps s4\<rparr>)"
    by (auto simp: discharge_def integrate_def Let_def split: sum.splits)
  have "prev_mo_comps s4 = mo_comps s" "prev_so_comps s4 = mo_comps s"
    using euler_sums[OF s4] bfh by simp_all
  then show ?thesis using dmo by (simp add: s')
qed

theorem discharge_snapshots_main_outlet_witness:
  "\<exists>s'. discharge id id (decay_rate ones13) seeded_reactor = Inr s'
        \<and> prev_mo_comps s' = ones13 \<and> prev_so_comps s' = ones13"
proof -
  obtain s' where run: "discharge id id (decay_rate ones13) seeded_reactor = Inr s'"
    using seeded_discharge_runs by blast
  have "mo_comps seeded_reactor = ones13"
    by (simp add: seeded_reactor_def assign_initial_guess_def)
  then show ?thesis
    using discharge_snapshots_main_outlet [where branch_flow_helper = id
        and discharge_main_outlet = id, OF _ _ run] run
    by simp
qed

subsection \<open>The guarded mutators\<close>

text \<open>
  C7. \<^verbatim>\<open>set_active_vol(v)\<close>: if \<open>v > 0\<close> the active volume becomes \<open>v\<close>. Otherwise the
  call returns normally (the method has no failing branch), one error line is printed,
  and every field of the reactor, the active volume among them, keeps its value.
\<close>

theorem set_active_vol_guard:
  "(0 < v \<longrightarrow> set_active_vol v s = s\<lparr>active_vol := v\<rparr> \<and> get_active_vol (set_active_vol v s) = v)
   \<and> (\<not> 0 < v \<longrightarrow>
        set_active_vol v s =
          s\<lparr>console := console s @ [''ERROR: '' @ name s @ '' requires an active vol > 0 M3.'']\<rparr>
        \<and> get_active_vol (set_active_vol v s) = get_active_vol s)"
  by (simp add: set_active_vol_def get_active_vol_def)

theorem set_active_vol_guard_witness:
  "get_active_vol (set_active_vol 380 two_comp_reactor) = 380
   \<and> set_active_vol 0 two_comp_reactor =
       two_comp_reactor\<lparr>console := [''ERROR: ASMReactor_1 requires an active vol > 0 M3.'']\<rparr>
   \<and> get_active_vol (set_active_vol (- 5) two_comp_reactor) = 38000"
  using set_active_vol_guard [of 380 two_comp_reactor]
    set_active_vol_guard [of 0 two_comp_reactor]
    set_active_vol_guard [of "- 5" two_comp_reactor]
  by (simp add: two_comp_reactor_def get_active_vol_def)

text \<open>
  C8. \<^verbatim>\<open>set_model_condition(Temperature, DO)\<close>: if the temperature is below 4 or the
  dissolved oxygen below 0, the call returns normally, one error line is printed and the
  kinetics object is left as it was; otherwise the two values are passed to the kinetics
  object's updater and nothing is printed.
\<close>

theorem set_model_condition_guard:
  "(Temperature < 4 \<or> DO < 0 \<longrightarrow>
      set_model_condition update Temperature DO s =
        s\<lparr>console := console s @ [''ERROR: '' @ name s @ '' given crazy temperature or DO.'']\<rparr>
      \<and> sludge_kin (set_model_condition update Temperature DO s) = sludge_kin s)
   \<and> (\<not> (Temperature < 4 \<or> DO < 0) \<longrightarrow>
      set_model_condition update Temperature DO s =
        s\<lparr>sludge_kin := update Temperature DO (sludge_kin s)\<rparr>)"
  by (auto simp: set_model_condition_def)

theorem set_model_condition_guard_witness:
  "sludge_kin (set_model_condition store_condition 3 2 two_comp_reactor) = (20, 2)
   \<and> sludge_kin (set_model_condition store_condition 20 (- 1) two_comp_reactor) = (20, 2)
   \<and> console (set_model_condition store_condition 3 2 two_comp_reactor) =
       [''ERROR: ASMReactor_1 given crazy temperature or DO.'']
   \<and> sludge_kin (set_model_condition store_condition 4 0 two_comp_reactor) = (4, 0)
   \<and> console (set_model_condition store_condition 4 0 two_comp_reactor) = []"
  using set_model_condition_guard [of 3 2 store_condition two_comp_reactor]
    set_model_condition_guard [of 20 "- 1" store_condition two_comp_reactor]
    set_model_condition_guard [of 4 0 store_condition two_comp_reactor]
  by (simp add: two_comp_reactor_def store_condition_def)

subsection \<open>Scheme dispatch\<close>

text \<open>
  C9. \<^verbatim>\<open>integrate\<close> decides by one comparison: the string \<^verbatim>\<open>'Euler'\<close> runs the Euler
  integrator, every other string runs the RK4 integrator, with the same arguments. No
  error line is printed for a name that is not recognised: a completed call leaves the
  console as it was.
\<close>

theorem integrate_dispatch:
  "(method_name = ''Euler'' \<longrightarrow>
      integrate dCdt fip method_name f_s f_p s = euler dCdt fip f_s f_p s)
   \<and> (method_name \<noteq> ''Euler'' \<longrightarrow>
      integrate dCdt fip method_name f_s f_p s = runge_kutta_4 dCdt fip f_s f_p s)
   \<and> (\<forall>s'. integrate dCdt fip method_name f_s f_p s = Inr s' \<longrightarrow> console s' = console s)"
  using euler_sums[of dCdt fip f_s f_p s] rk4_sums[of dCdt fip f_s f_p s]
  by (simp add: integrate_def)

theorem integrate_dispatch_witness:
  "integrate (const_rate [-2, -1]) 1 ''Euler'' (1 / 10) 2 two_comp_reactor
     = euler (const_rate [-2, -1]) 1 (1 / 10) 2 two_comp_reactor
   \<and> integrate (const_rate [-2, -1]) 1 ''RK4'' (1 / 10) 2 two_comp_reactor
     = runge_kutta_4 (const_rate [-2, -1]) 1 (1 / 10) 2 two_comp_reactor
   \<and> integrate (const_rate [-2, -1]) 1 ''euler'' (1 / 10) 2 two_comp_reactor
     = runge_kutta_4 (const_rate [-2, -1]) 1 (1 / 10) 2 two_comp_reactor
   \<and> integrate (const_rate [-2, -1]) 1 '''' (1 / 10) 2 two_comp_reactor
     = runge_kutta_4 (const_rate [-2, -1]) 1 (1 / 10) 2 two_comp_reactor
   \<and> (\<exists>s'. integrate (const_rate [-2, -1]) 1 ''euler'' (1 / 10) 2 two_comp_reactor = Inr s'
          \<and> console s' = console two_comp_reactor)"
proof -
  note d1 = integrate_dispatch [of "''Euler''" "const_rate [-2, -1]" 1 "1 / 10" 2 two_comp_reactor]
  note d2 = integrate_dispatch [of "''RK4''" "const_rate [-2, -1]" 1 "1 / 10" 2 two_comp_reactor]
  note d3 = integrate_dispatch [of "''euler''" "const_rate [-2, -1]" 1 "1 / 10" 2 two_comp_reactor]
  note d4 = integrate_dispatch [of "''''" "const_rate [-2, -1]" 1 "1 / 10" 2 two_comp_reactor]
  obtain r where "runge_kutta_4 (const_rate [-2, -1]) 1 (1 / 10) 2 two_comp_reactor = Inr r"
    using two_comp_rk4_runs by blast
  then have "integrate (const_rate [-2, -1]) 1 ''euler'' (1 / 10) 2 two_comp_reactor = Inr r"
    using d3 by simp
  then have "\<exists>s'. integrate (const_rate [-2, -1]) 1 ''euler'' (1 / 10) 2 two_comp_reactor = Inr s'
          \<and> console s' = console two_comp_reactor"
    using d3 by blast
  then show ?thesis using d1 d2 d3 d4 by simp
qed

subsection \<open>The outlet views after integration\<close>



end
